theory Spec2Isabelle
  imports Main "HOL-Library.Finite_Map" "HOL-Library.Sublist" "HOL-Library.Multiset"
begin

section \<open>Package slice: higher-order operations over slices\<close>

subsection \<open>Values seen through reflection\<close>

text \<open>
  The functions of package \<^verbatim>\<open>slice\<close> take \<^verbatim>\<open>interface{}\<close> arguments and inspect
  them with \<^verbatim>\<open>reflect\<close>. An argument is a slice with elements of type \<open>'a\<close>, a
  non-nil func of one argument of type \<open>'a\<close> with one result of type \<open>'r\<close>, a
  pointer to such a value, a nil pointer, the nil interface, or a value of any other kind.
  \<^verbatim>\<open>reflect.Value.Kind\<close> and \<^verbatim>\<open>reflect.Value.Elem\<close> are the two operations that the
  source applies to it. A nil slice and an empty slice are both \<open>SliceV []\<close>: the source
  reads an argument slice through \<^verbatim>\<open>Len\<close> and \<^verbatim>\<open>Index\<close> only.
\<close>

datatype kind = Invalid | Ptr | Slice | Func | OtherKind

datatype ('a, 'r) "value" =
    NilV
  | SliceV "'a list"
  | FuncV "'a \<Rightarrow> 'r"
  | PtrV "('a, 'r) value"
  | NilPtrV
  | OtherV

fun Kind :: "('a, 'r) value \<Rightarrow> kind" where
  "Kind NilV = Invalid"
| "Kind (SliceV xs) = Slice"
| "Kind (FuncV g) = Func"
| "Kind (PtrV v) = Ptr"
| "Kind NilPtrV = Ptr"
| "Kind OtherV = OtherKind"

text \<open>
  \<^verbatim>\<open>Elem\<close> of a nil pointer is the zero \<^verbatim>\<open>reflect.Value\<close>, whose kind is
  \<^verbatim>\<open>Invalid\<close>. The source calls \<^verbatim>\<open>Elem\<close> on values of kind \<^verbatim>\<open>Ptr\<close> only.
\<close>

fun Elem :: "('a, 'r) value \<Rightarrow> ('a, 'r) value" where
  "Elem (PtrV v) = v"
| "Elem NilPtrV = NilV"
| "Elem v = v"

datatype panic = NotSlice kind | NotFunc kind | IndexOutOfRange | UnhashableKey

text \<open>
  \<^verbatim>\<open>
  func reflectSlice(i interface{}) reflect.Value {
      v := reflect.ValueOf(i)
      if v.Kind() == reflect.Ptr { v = v.Elem() }
      if v.Kind() != reflect.Slice { panic("utils/slice: argument type is not slice, ...") }
      return v
  }
  \<close>
\<close>

definition reflectSlice :: "('a, 'r) value \<Rightarrow> panic + 'a list" where
  "reflectSlice i =
     (let v = i;
          v = (if Kind v = Ptr then Elem v else v)
      in case v of SliceV xs \<Rightarrow> Inr xs | _ \<Rightarrow> Inl (NotSlice (Kind v)))"

definition reflectFunc :: "('a, 'r) value \<Rightarrow> panic + ('a \<Rightarrow> 'r)" where
  "reflectFunc f =
     (let v = f;
          v = (if Kind v = Ptr then Elem v else v)
      in case v of FuncV g \<Rightarrow> Inr g | _ \<Rightarrow> Inl (NotFunc (Kind v)))"

text \<open>\<^verbatim>\<open>v.Len()\<close> and \<^verbatim>\<open>v.Index(i)\<close>; the latter panics out of range.\<close>

definition Len :: "'a list \<Rightarrow> int" where
  "Len v = int (length v)"

definition Value_Index :: "'a list \<Rightarrow> int \<Rightarrow> panic + 'a" where
  "Value_Index v i =
     (if 0 \<le> i \<and> i < Len v then Inr (v ! nat i) else Inl IndexOutOfRange)"

subsection \<open>Results of type \<^verbatim>\<open>interface{}\<close> and \<^verbatim>\<open>[]interface{}\<close>\<close>

text \<open>
  An \<^verbatim>\<open>interface{}\<close> result is \<open>None\<close> for nil and \<open>Some x\<close> for a boxed element
  (\<^verbatim>\<open>e.Interface()\<close>). A result slice is \<open>None\<close> for the nil slice and \<open>Some xs\<close>
  otherwise; \<^verbatim>\<open>make([]interface{}, n)\<close> is a non-nil slice of \<open>n\<close> nil entries.
\<close>

type_synonym 'a iface = "'a option"

type_synonym 'a slice = "'a iface list option"

definition Interface :: "'a \<Rightarrow> 'a iface" where
  "Interface e = Some e"

definition make_slice :: "int \<Rightarrow> 'a slice" where
  "make_slice n = Some (replicate (nat n) None)"

fun append_slice :: "'a slice \<Rightarrow> 'a iface \<Rightarrow> 'a slice" where
  "append_slice None e = Some [e]"
| "append_slice (Some xs) e = Some (xs @ [e])"

text \<open>The assignment \<^verbatim>\<open>result[i] = e\<close>, which panics out of range.\<close>

fun set_index :: "'a slice \<Rightarrow> int \<Rightarrow> 'a iface \<Rightarrow> panic + 'a slice" where
  "set_index None i e = Inl IndexOutOfRange"
| "set_index (Some xs) i e =
     (if 0 \<le> i \<and> i < Len xs then Inr (Some (xs[nat i := e])) else Inl IndexOutOfRange)"

subsection \<open>\<^verbatim>\<open>container/list\<close>\<close>

text \<open>
  A \<^verbatim>\<open>*list.List\<close> is \<open>None\<close> for the nil pointer and otherwise the values of its
  elements from front to back.
\<close>

type_synonym 'a List = "'a iface list"

definition list_New :: "'a List" where
  "list_New = []"

definition PushBack :: "'a List \<Rightarrow> 'a iface \<Rightarrow> 'a List" where
  "PushBack l x = l @ [x]"

subsection \<open>ToList and ToSlice\<close>

function ToList_loop :: "'a list \<Rightarrow> 'a List \<Rightarrow> int \<Rightarrow> panic + 'a List" where
  "ToList_loop v l i =
     (if i < Len v then
        (case Value_Index v i of
           Inl p \<Rightarrow> Inl p
         | Inr e \<Rightarrow> ToList_loop v (PushBack l (Interface e)) (i + 1))
      else Inr l)"
  by pat_completeness auto
termination
  by (relation "measure (\<lambda>(v, l, i). nat (Len v - i))") auto

definition ToList :: "('a, 'r) value \<Rightarrow> panic + 'a List option" where
  "ToList s =
     (case reflectSlice s of
        Inl p \<Rightarrow> Inl p
      | Inr v \<Rightarrow>
          (case ToList_loop v list_New 0 of
             Inl p \<Rightarrow> Inl p
           | Inr l \<Rightarrow> Inr (Some l)))"

text \<open>
  \<^verbatim>\<open>
  result := make([]interface{}, l.Len())
  i := 0
  for e := l.Front(); e != nil; e = e.Next() { result[i] = e.Value; i++ }
  \<close>
  The first argument of the loop is what remains of the list from \<^verbatim>\<open>e\<close> on.
\<close>

fun ToSlice_loop :: "'a List \<Rightarrow> 'a slice \<Rightarrow> int \<Rightarrow> panic + 'a slice" where
  "ToSlice_loop [] result i = Inr result"
| "ToSlice_loop (e # es) result i =
     (case set_index result i e of
        Inl p \<Rightarrow> Inl p
      | Inr result' \<Rightarrow> ToSlice_loop es result' (i + 1))"

definition ToSlice :: "'a List option \<Rightarrow> panic + 'a slice" where
  "ToSlice l =
     (case l of
        None \<Rightarrow> Inr (make_slice 0)
      | Some es \<Rightarrow> ToSlice_loop es (make_slice (Len es)) 0)"

subsection \<open>Exist, Filter, IndexLast, Find, FindLast\<close>

function Exist_loop :: "'a list \<Rightarrow> ('a \<Rightarrow> bool) \<Rightarrow> int \<Rightarrow> panic + bool" where
  "Exist_loop v1 v2 i =
     (if i < Len v1 then
        (case Value_Index v1 i of
           Inl p \<Rightarrow> Inl p
         | Inr e \<Rightarrow> if v2 e then Inr True else Exist_loop v1 v2 (i + 1))
      else Inr False)"
  by pat_completeness auto
termination
  by (relation "measure (\<lambda>(v1, v2, i). nat (Len v1 - i))") auto

definition Exist :: "('a, bool) value \<Rightarrow> ('a, bool) value \<Rightarrow> panic + bool" where
  "Exist i f =
     (case reflectSlice i of
        Inl p \<Rightarrow> Inl p
      | Inr v1 \<Rightarrow>
          (case reflectFunc f of
             Inl p \<Rightarrow> Inl p
           | Inr v2 \<Rightarrow> Exist_loop v1 v2 0))"

function Filter_loop ::
  "'a list \<Rightarrow> ('a \<Rightarrow> bool) \<Rightarrow> int \<Rightarrow> 'a slice \<Rightarrow> panic + 'a slice" where
  "Filter_loop v1 v2 i result =
     (if i < Len v1 then
        (case Value_Index v1 i of
           Inl p \<Rightarrow> Inl p
         | Inr e \<Rightarrow>
             if v2 e then Filter_loop v1 v2 (i + 1) (append_slice result (Interface e))
             else Filter_loop v1 v2 (i + 1) result)
      else Inr result)"
  by pat_completeness auto
termination
  by (relation "measure (\<lambda>(v1, v2, i, result). nat (Len v1 - i))") auto

definition Filter :: "('a, bool) value \<Rightarrow> ('a, bool) value \<Rightarrow> panic + 'a slice" where
  "Filter i f =
     (case reflectSlice i of
        Inl p \<Rightarrow> Inl p
      | Inr v1 \<Rightarrow>
          (case reflectFunc f of
             Inl p \<Rightarrow> Inl p
           | Inr v2 \<Rightarrow> Filter_loop v1 v2 0 (make_slice 0)))"

text \<open>\<^verbatim>\<open>for i := v1.Len() - 1; i > 0; i-- { ... }\<close>\<close>

function IndexLast_loop :: "'a list \<Rightarrow> ('a \<Rightarrow> bool) \<Rightarrow> int \<Rightarrow> panic + int" where
  "IndexLast_loop v1 v2 i =
     (if i > 0 then
        (case Value_Index v1 i of
           Inl p \<Rightarrow> Inl p
         | Inr e \<Rightarrow> if v2 e then Inr i else IndexLast_loop v1 v2 (i - 1))
      else Inr (- 1))"
  by pat_completeness auto
termination
  by (relation "measure (\<lambda>(v1, v2, i). nat i)") auto

definition IndexLast :: "('a, bool) value \<Rightarrow> ('a, bool) value \<Rightarrow> panic + int" where
  "IndexLast i f =
     (case reflectSlice i of
        Inl p \<Rightarrow> Inl p
      | Inr v1 \<Rightarrow>
          (case reflectFunc f of
             Inl p \<Rightarrow> Inl p
           | Inr v2 \<Rightarrow> IndexLast_loop v1 v2 (Len v1 - 1)))"

function Find_loop ::
  "'a list \<Rightarrow> ('a \<Rightarrow> bool) \<Rightarrow> int \<Rightarrow> panic + (bool \<times> 'a iface)" where
  "Find_loop v1 v2 i =
     (if i < Len v1 then
        (case Value_Index v1 i of
           Inl p \<Rightarrow> Inl p
         | Inr e \<Rightarrow> if v2 e then Inr (True, Interface e) else Find_loop v1 v2 (i + 1))
      else Inr (False, None))"
  by pat_completeness auto
termination
  by (relation "measure (\<lambda>(v1, v2, i). nat (Len v1 - i))") auto

definition Find ::
  "('a, bool) value \<Rightarrow> ('a, bool) value \<Rightarrow> panic + (bool \<times> 'a iface)" where
  "Find i f =
     (case reflectSlice i of
        Inl p \<Rightarrow> Inl p
      | Inr v1 \<Rightarrow>
          (case reflectFunc f of
             Inl p \<Rightarrow> Inl p
           | Inr v2 \<Rightarrow> Find_loop v1 v2 0))"

function FindLast_loop ::
  "'a list \<Rightarrow> ('a \<Rightarrow> bool) \<Rightarrow> int \<Rightarrow> panic + (bool \<times> 'a iface)" where
  "FindLast_loop v1 v2 i =
     (if i > 0 then
        (case Value_Index v1 i of
           Inl p \<Rightarrow> Inl p
         | Inr e \<Rightarrow> if v2 e then Inr (True, Interface e) else FindLast_loop v1 v2 (i - 1))
      else Inr (False, None))"
  by pat_completeness auto
termination
  by (relation "measure (\<lambda>(v1, v2, i). nat i)") auto

definition FindLast ::
  "('a, bool) value \<Rightarrow> ('a, bool) value \<Rightarrow> panic + (bool \<times> 'a iface)" where
  "FindLast i f =
     (case reflectSlice i of
        Inl p \<Rightarrow> Inl p
      | Inr v1 \<Rightarrow>
          (case reflectFunc f of
             Inl p \<Rightarrow> Inl p
           | Inr v2 \<Rightarrow> FindLast_loop v1 v2 (Len v1 - 1)))"


section \<open>Package collection: sets\<close>

subsection \<open>Go maps with keys of type \<^verbatim>\<open>interface{}\<close>\<close>

text \<open>
  \<^verbatim>\<open>type baseSet struct { elements map[interface{}]bool }\<close>

  A Go map compares its keys with Go's \<^verbatim>\<open>==\<close>, which is not HOL's equality: a key is
  \<^item> \<open>Key x\<close>, a hashable value that is \<^verbatim>\<open>==\<close> to itself; two such values are \<^verbatim>\<open>==\<close>
    exactly when they are the same value;
  \<^item> \<open>NaN x\<close>, a hashable value that is not \<^verbatim>\<open>==\<close> to itself nor to any other value (a
    floating-point NaN, or an array or struct that holds one);
  \<^item> \<open>Unhashable x\<close>, a value whose dynamic type is a slice, a map or a func: indexing a
    map with it panics.
  \<open>go_eq\<close> is \<^verbatim>\<open>==\<close> on hashable values.
\<close>

datatype 'a key = Key 'a | NaN 'a | Unhashable 'a

fun hashable :: "'a key \<Rightarrow> bool" where
  "hashable (Unhashable x) = False"
| "hashable k = True"

fun go_eq :: "'a key \<Rightarrow> 'a key \<Rightarrow> bool" where
  "go_eq (Key x) (Key y) = (x = y)"
| "go_eq k k' = False"

text \<open>
  A map holds at most one entry for each key that is \<^verbatim>\<open>==\<close> to itself. An assignment
  with a NaN key finds no entry to overwrite, so it always makes a new entry, which no
  later lookup finds; \<^verbatim>\<open>len\<close> counts these entries and \<^verbatim>\<open>range\<close> visits them. A map is
  finite, as a \<open>fmap\<close> and a list are.
\<close>

record 'a go_map =
  equal_keys :: "('a, bool) fmap"
  nan_keys :: "('a \<times> bool) list"

text \<open>\<^verbatim>\<open>make(map[interface{}]bool)\<close>, \<^verbatim>\<open>len(m)\<close>, \<^verbatim>\<open>_, ok := m[v]\<close> and \<^verbatim>\<open>m[v] = b\<close>.\<close>

definition make_map :: "'a go_map" where
  "make_map = \<lparr>equal_keys = fmempty, nan_keys = []\<rparr>"

definition map_len :: "'a go_map \<Rightarrow> int" where
  "map_len m = int (fcard (fmdom (equal_keys m))) + int (length (nan_keys m))"

fun map_index :: "'a go_map \<Rightarrow> 'a key \<Rightarrow> panic + bool option" where
  "map_index m (Key x) = Inr (fmlookup (equal_keys m) x)"
| "map_index m (NaN x) = Inr None"
| "map_index m (Unhashable x) = Inl UnhashableKey"

fun map_assign :: "'a go_map \<Rightarrow> 'a key \<Rightarrow> bool \<Rightarrow> panic + 'a go_map" where
  "map_assign m (Key x) b = Inr (m\<lparr>equal_keys := fmupd x b (equal_keys m)\<rparr>)"
| "map_assign m (NaN x) b = Inr (m\<lparr>nan_keys := nan_keys m @ [(x, b)]\<rparr>)"
| "map_assign m (Unhashable x) b = Inl UnhashableKey"

text \<open>
  \<^verbatim>\<open>for k := range s.elements\<close> visits every entry of the map once, in an order that Go
  leaves unspecified. Every function with such a loop takes the keys in the order of that
  run as its first argument \<open>ks\<close>; \<open>range_order m ks\<close> says that \<open>ks\<close> is an order in which
  Go may visit the entries of \<open>m\<close>.
\<close>

fun Keys_of :: "'a key list \<Rightarrow> 'a list" where
  "Keys_of [] = []"
| "Keys_of (Key x # ks) = x # Keys_of ks"
| "Keys_of (k # ks) = Keys_of ks"

fun NaNs_of :: "'a key list \<Rightarrow> 'a list" where
  "NaNs_of [] = []"
| "NaNs_of (NaN x # ks) = x # NaNs_of ks"
| "NaNs_of (k # ks) = NaNs_of ks"

definition range_order :: "'a go_map \<Rightarrow> 'a key list \<Rightarrow> bool" where
  "range_order m ks =
     (list_all hashable ks
      \<and> distinct (Keys_of ks) \<and> set (Keys_of ks) = fmdom' (equal_keys m)
      \<and> mset (NaNs_of ks) = mset (map fst (nan_keys m)))"

subsection \<open>The set\<close>

text \<open>
  An argument of type \<^verbatim>\<open>Set\<close> is \<open>None\<close> for the nil interface and \<open>Some s\<close> for a
  \<^verbatim>\<open>*baseSet\<close>, the only implementation of the interface. Methods that change the
  receiver return the new receiver.
\<close>

record 'a baseSet =
  elements :: "'a go_map"

definition Size :: "'a baseSet \<Rightarrow> int" where
  "Size s = map_len (elements s)"

definition IsEmpty :: "'a baseSet \<Rightarrow> bool" where
  "IsEmpty s = (Size s = 0)"

definition Contains :: "'a baseSet \<Rightarrow> 'a key \<Rightarrow> panic + bool" where
  "Contains s v =
     (case map_index (elements s) v of
        Inl p \<Rightarrow> Inl p
      | Inr r \<Rightarrow> Inr (case r of None \<Rightarrow> False | Some b \<Rightarrow> True))"

text \<open>
  \<^verbatim>\<open>
  func (s *baseSet) Add(v interface{}) bool {
      _, ok := s.elements[v]
      s.elements[v] = true
      return ok
  }
  \<close>
\<close>

definition Add :: "'a baseSet \<Rightarrow> 'a key \<Rightarrow> panic + (bool \<times> 'a baseSet)" where
  "Add s v =
     (case map_index (elements s) v of
        Inl p \<Rightarrow> Inl p
      | Inr r \<Rightarrow>
          (let ok = (case r of None \<Rightarrow> False | Some b \<Rightarrow> True)
           in case map_assign (elements s) v True of
                Inl p \<Rightarrow> Inl p
              | Inr m \<Rightarrow> Inr (ok, s\<lparr>elements := m\<rparr>)))"

text \<open>\<^verbatim>\<open>NewSet(elements ...interface{})\<close>: the loop runs over a slice, in its order.\<close>

fun NewSet_loop :: "'a key list \<Rightarrow> 'a baseSet \<Rightarrow> panic + 'a baseSet" where
  "NewSet_loop [] s = Inr s"
| "NewSet_loop (element # rest) s =
     (case Add s element of
        Inl p \<Rightarrow> Inl p
      | Inr (ok, s') \<Rightarrow> NewSet_loop rest s')"

definition NewSet :: "'a key list \<Rightarrow> panic + 'a baseSet" where
  "NewSet elems = NewSet_loop elems \<lparr>elements = make_map\<rparr>"





text \<open>
  \<^verbatim>\<open>
  func (s0 *baseSet) IsEqual(s1 Set) bool {
      if s1 == nil || s0.Size() != s1.Size() { return false }
      for k, _ := range s0.elements {
          if !s1.Contains(k) { return false }
      }
      return true
  }
  \<close>
  \<open>ks\<close> is the order of the keys of \<open>s0\<close>.
\<close>

fun IsEqual_loop :: "'a key list \<Rightarrow> 'a baseSet \<Rightarrow> panic + bool" where
  "IsEqual_loop [] s1 = Inr True"
| "IsEqual_loop (k # ks) s1 =
     (case Contains s1 k of
        Inl p \<Rightarrow> Inl p
      | Inr c \<Rightarrow> if \<not> c then Inr False else IsEqual_loop ks s1)"

definition IsEqual :: "'a key list \<Rightarrow> 'a baseSet \<Rightarrow> 'a baseSet option \<Rightarrow> panic + bool" where
  "IsEqual ks s0 s1 =
     (case s1 of
        None \<Rightarrow> Inr False
      | Some t \<Rightarrow> if Size s0 \<noteq> Size t then Inr False else IsEqual_loop ks t)"

section \<open>Package errors\<close>

text \<open>
  \<^verbatim>\<open>
  type baseError struct {
      message string; stack string; context string; code int; inner error
  }
  \<close>
  A value of Go's \<^verbatim>\<open>error\<close> interface is either an \<^verbatim>\<open>Error\<close> of this package (a
  \<^verbatim>\<open>*baseError\<close>, its only implementation, never a nil pointer) or another error, given
  by the text that its \<^verbatim>\<open>Error()\<close> method returns. The nil \<^verbatim>\<open>error\<close> is \<open>None\<close>. The
  code is a Go \<^verbatim>\<open>int\<close>; the package stores and returns it and computes nothing with it.
  \<^verbatim>\<open>SetCode\<close> changes the receiver in place; the model returns the changed error.
\<close>

datatype baseError =
  BaseError (message: string) (stack: string) (context': string) (code: int)
    (inner: "error option")
and error = Error baseError | OtherError string

definition DefaultErrCode :: int where
  "DefaultErrCode = - 1"

definition baseError_Message :: "baseError \<Rightarrow> string" where
  "baseError_Message e = message e"

definition Stack :: "baseError \<Rightarrow> string" where
  "Stack e = stack e"

definition Context :: "baseError \<Rightarrow> string" where
  "Context e = context' e"

definition SetCode :: "baseError \<Rightarrow> int \<Rightarrow> baseError" where
  "SetCode e code' = BaseError (message e) (stack e) (context' e) code' (inner e)"

definition Code :: "baseError \<Rightarrow> int" where
  "Code e = code e"

definition Inner :: "baseError \<Rightarrow> error option" where
  "Inner e = inner e"

text \<open>\<^verbatim>\<open>strings.Join(elems, sep)\<close>\<close>

fun Join :: "string list \<Rightarrow> string \<Rightarrow> string" where
  "Join [] sep = []"
| "Join [x] sep = x"
| "Join (x # y # ys) sep = x @ sep @ Join (y # ys) sep"

text \<open>
  The argument of \<^verbatim>\<open>Message(err interface{})\<close>, by the cases of its type switch: an
  \<^verbatim>\<open>Error\<close>, a \<^verbatim>\<open>runtime.Error\<close> with the text of its \<^verbatim>\<open>Error()\<close>, anything else.
  \<^verbatim>\<open>
  err := Error(e)
  ret := []string{}
  for err != nil {
      ret = append(ret, err.Message())
      innerErr := err.Inner()
      if innerErr == nil { break }
      var ok bool
      err, ok = innerErr.(Error)
      if !ok { ret = append(ret, innerErr.Error()); break }
  }
  return strings.Join(ret, " ")
  \<close>
\<close>

datatype any = ErrorVal baseError | RuntimeErrorVal string | NonErrorVal

function Message_loop :: "baseError \<Rightarrow> string list \<Rightarrow> string list" where
  "Message_loop err ret =
     (let ret = ret @ [baseError_Message err];
          innerErr = Inner err
      in case innerErr of
           None \<Rightarrow> ret
         | Some (Error err') \<Rightarrow> Message_loop err' ret
         | Some (OtherError text) \<Rightarrow> ret @ [text])"
  by pat_completeness auto
termination
proof (relation "measure (\<lambda>(err, ret). size err)")
  show "wf (measure (\<lambda>(err, ret). size err))"
    by simp
next
  fix err :: baseError and ret x xa :: "string list" and xb x2 x1
  assume "xb = Inner err" "xb = Some x2" "x2 = Error x1"
  then have "inner err = Some (Error x1)"
    by (simp add: Inner_def)
  then show "((x1, xa), err, ret) \<in> measure (\<lambda>(err, ret). size err)"
    by (cases err) simp
qed

declare Message_loop.simps [simp del]

definition Message :: "any \<Rightarrow> string" where
  "Message err =
     (case err of
        ErrorVal e \<Rightarrow> Join (Message_loop e []) '' ''
      | RuntimeErrorVal text \<Rightarrow> text
      | NonErrorVal \<Rightarrow> ''Passed a non-error to Message'')"

text \<open>
  The constructors. \<open>st\<close> is the pair \<open>(stack, context)\<close> that \<^verbatim>\<open>StackTrace()\<close> returns
  at the call, and \<open>Sprintf\<close> is \<^verbatim>\<open>fmt.Sprintf\<close>. A field that the composite literal leaves out has its
  zero value: \<^verbatim>\<open>inner\<close> is nil.
\<close>

definition New :: "string \<times> string \<Rightarrow> string \<Rightarrow> baseError" where
  "New st msg =
     BaseError msg (fst st) (snd st) DefaultErrCode None"

definition NewByCode :: "string \<times> string \<Rightarrow> int \<Rightarrow> string \<Rightarrow> baseError" where
  "NewByCode st code' msg =
     BaseError msg (fst st) (snd st) code' None"

definition Newf ::
  "(string \<Rightarrow> 'x list \<Rightarrow> string) \<Rightarrow> string \<times> string \<Rightarrow> string \<Rightarrow> 'x list \<Rightarrow> baseError" where
  "Newf Sprintf st format args =
     BaseError (Sprintf format args) (fst st) (snd st) DefaultErrCode None"

definition NewfByCode ::
  "(string \<Rightarrow> 'x list \<Rightarrow> string) \<Rightarrow> string \<times> string \<Rightarrow> int \<Rightarrow> string \<Rightarrow> 'x list \<Rightarrow> baseError" where
  "NewfByCode Sprintf st code' format args =
     BaseError (Sprintf format args) (fst st) (snd st) code' None"

definition Wrap :: "string \<times> string \<Rightarrow> error option \<Rightarrow> string \<Rightarrow> baseError" where
  "Wrap st err msg =
     BaseError msg (fst st) (snd st) DefaultErrCode err"

definition WrapByCode ::
  "string \<times> string \<Rightarrow> int \<Rightarrow> error option \<Rightarrow> string \<Rightarrow> baseError" where
  "WrapByCode st code' err msg =
     BaseError msg (fst st) (snd st) code' err"

definition Wrapf ::
  "(string \<Rightarrow> 'x list \<Rightarrow> string) \<Rightarrow> string \<times> string \<Rightarrow> error option \<Rightarrow> string \<Rightarrow> 'x list
    \<Rightarrow> baseError" where
  "Wrapf Sprintf st err format args =
     BaseError (Sprintf format args) (fst st) (snd st) DefaultErrCode err"

definition WrapfByCode ::
  "(string \<Rightarrow> 'x list \<Rightarrow> string) \<Rightarrow> string \<times> string \<Rightarrow> int \<Rightarrow> error option \<Rightarrow> string
    \<Rightarrow> 'x list \<Rightarrow> baseError" where
  "WrapfByCode Sprintf st code' err format args =
     BaseError (Sprintf format args) (fst st) (snd st) code' err"


section \<open>Properties of package slice\<close>

subsection \<open>Auxiliary facts about the loops\<close>

lemma reflectSlice_SliceV: "reflectSlice (SliceV S) = Inr S"
  by (simp add: reflectSlice_def)

lemma reflectFunc_FuncV: "reflectFunc (FuncV F) = Inr F"
  by (simp add: reflectFunc_def)

lemma IndexLast_loop_same:
  "length v = length w \<Longrightarrow> (\<forall>j. 0 < j \<and> j \<le> i \<longrightarrow> v ! nat j = w ! nat j) \<Longrightarrow>
   IndexLast_loop v F i = IndexLast_loop w F i"
proof (induction v F i rule: IndexLast_loop.induct)
  case (1 v1 v2 i)
  show ?case
  proof (cases "i > 0")
    case False
    then show ?thesis by simp
  next
    case True
    show ?thesis
    proof (cases "i < Len v1")
      case False
      with True 1(2) show ?thesis
        by (simp add: Value_Index_def Len_def)
    next
      case inr: True
      have e: "v1 ! nat i = w ! nat i"
        using 1(3) True by simp
      show ?thesis
      proof (cases "v2 (v1 ! nat i)")
        case True
        with \<open>i > 0\<close> inr e 1(2) show ?thesis
          by (simp add: Value_Index_def Len_def)
      next
        case False
        have "IndexLast_loop v1 v2 (i - 1) = IndexLast_loop w v2 (i - 1)"
          using 1(1)[of "v1 ! nat i"] \<open>i > 0\<close> inr False 1(2) 1(3)
          by (simp add: Value_Index_def)
        with \<open>i > 0\<close> inr e 1(2) False show ?thesis
          by (simp add: Value_Index_def Len_def)
      qed
    qed
  qed
qed

lemma IndexLast_loop_none:
  "i < Len v \<Longrightarrow> (\<forall>j. 0 < j \<and> j \<le> i \<longrightarrow> \<not> F (v ! nat j)) \<Longrightarrow>
   IndexLast_loop v F i = Inr (- 1)"
  by (induction v F i rule: IndexLast_loop.induct) (simp add: Value_Index_def)

lemma FindLast_loop_same:
  "length v = length w \<Longrightarrow> (\<forall>j. 0 < j \<and> j \<le> i \<longrightarrow> v ! nat j = w ! nat j) \<Longrightarrow>
   FindLast_loop v F i = FindLast_loop w F i"
proof (induction v F i rule: FindLast_loop.induct)
  case (1 v1 v2 i)
  show ?case
  proof (cases "i > 0")
    case False
    then show ?thesis by simp
  next
    case True
    show ?thesis
    proof (cases "i < Len v1")
      case False
      with True 1(2) show ?thesis
        by (simp add: Value_Index_def Len_def)
    next
      case inr: True
      have e: "v1 ! nat i = w ! nat i"
        using 1(3) True by simp
      show ?thesis
      proof (cases "v2 (v1 ! nat i)")
        case True
        with \<open>i > 0\<close> inr e 1(2) show ?thesis
          by (simp add: Value_Index_def Len_def)
      next
        case False
        have "FindLast_loop v1 v2 (i - 1) = FindLast_loop w v2 (i - 1)"
          using 1(1)[of "v1 ! nat i"] \<open>i > 0\<close> inr False 1(2) 1(3)
          by (simp add: Value_Index_def)
        with \<open>i > 0\<close> inr e 1(2) False show ?thesis
          by (simp add: Value_Index_def Len_def)
      qed
    qed
  qed
qed

lemma FindLast_loop_none:
  "i < Len v \<Longrightarrow> (\<forall>j. 0 < j \<and> j \<le> i \<longrightarrow> \<not> F (v ! nat j)) \<Longrightarrow>
   FindLast_loop v F i = Inr (False, None)"
  by (induction v F i rule: FindLast_loop.induct) (simp add: Value_Index_def)

lemma IndexLast_loop_range:
  "IndexLast_loop v F i = Inr r \<Longrightarrow> r = - 1 \<or> (0 < r \<and> r \<le> i)"
proof (induction v F i rule: IndexLast_loop.induct)
  case (1 v1 v2 i)
  show ?case
  proof (cases "i > 0")
    case False
    with 1(2) show ?thesis by simp
  next
    case True
    show ?thesis
    proof (cases "Value_Index v1 i")
      case (Inl p)
      with True 1(2) show ?thesis by simp
    next
      case (Inr e)
      show ?thesis
      proof (cases "v2 e")
        case True
        with \<open>i > 0\<close> Inr 1(2) show ?thesis by simp
      next
        case False
        with \<open>i > 0\<close> Inr 1(2) have "IndexLast_loop v1 v2 (i - 1) = Inr r"
          by simp
        from 1(1)[OF \<open>i > 0\<close> Inr False this] show ?thesis
          by auto
      qed
    qed
  qed
qed

lemma tail_nth: "0 < j \<Longrightarrow> j \<le> Len (x # xs) - 1 \<Longrightarrow> (x # xs) ! nat j \<in> set xs"
  by (cases "nat j") (auto simp: Len_def)

lemma drop_step:
  "0 \<le> i \<Longrightarrow> i < Len v \<Longrightarrow> drop (nat i) v = v ! nat i # drop (nat (i + 1)) v"
  by (simp add: Len_def Cons_nth_drop_Suc nat_add_distrib)

lemma drop_done: "\<not> i < Len v \<Longrightarrow> drop (nat i) v = []"
  by (simp add: Len_def)

lemma Filter_loop_eq:
  "0 \<le> i \<Longrightarrow>
   Filter_loop v F i (Some acc) = Inr (Some (acc @ map Interface (filter F (drop (nat i) v))))"
proof (induction v F i "Some acc" arbitrary: acc rule: Filter_loop.induct)
  case (1 v1 v2 i)
  show ?case
  proof (cases "i < Len v1")
    case False
    then show ?thesis by (simp add: drop_done)
  next
    case True
    note d = drop_step [OF \<open>0 \<le> i\<close> True]
    have vi: "Value_Index v1 i = Inr (v1 ! nat i)"
      using True \<open>0 \<le> i\<close> by (simp add: Value_Index_def)
    show ?thesis
    proof (cases "v2 (v1 ! nat i)")
      case t: True
      have "Filter_loop v1 v2 (i + 1) (Some (acc @ [Interface (v1 ! nat i)])) =
            Inr (Some ((acc @ [Interface (v1 ! nat i)]) @
                   map Interface (filter v2 (drop (nat (i + 1)) v1))))"
        using 1(1)[OF True vi t] \<open>0 \<le> i\<close> by simp
      with True vi t d show ?thesis
        by (simp del: Filter_loop.simps add: Filter_loop.simps[of v1 v2 i])
    next
      case f: False
      have "Filter_loop v1 v2 (i + 1) (Some acc) =
            Inr (Some (acc @ map Interface (filter v2 (drop (nat (i + 1)) v1))))"
        using 1(2)[OF True vi f] \<open>0 \<le> i\<close> by simp
      with True vi f d show ?thesis
        by (simp del: Filter_loop.simps add: Filter_loop.simps[of v1 v2 i])
    qed
  qed
qed

lemma Filter_eq:
  "Filter (SliceV S) (FuncV F) = Inr (Some (map Interface (filter F S)))"
  using Filter_loop_eq [of 0 S F "[]"]
  by (simp add: Filter_def reflectSlice_SliceV reflectFunc_FuncV make_slice_def)

lemma Exist_loop_eq:
  "0 \<le> i \<Longrightarrow> Exist_loop v F i = Inr (\<exists>x \<in> set (drop (nat i) v). F x)"
proof (induction v F i rule: Exist_loop.induct)
  case (1 v1 v2 i)
  show ?case
  proof (cases "i < Len v1")
    case False
    then show ?thesis by (simp add: drop_done)
  next
    case True
    note d = drop_step [OF \<open>0 \<le> i\<close> True]
    have vi: "Value_Index v1 i = Inr (v1 ! nat i)"
      using True \<open>0 \<le> i\<close> by (simp add: Value_Index_def)
    show ?thesis
    proof (cases "v2 (v1 ! nat i)")
      case t: True
      with True vi d show ?thesis
        by (simp del: Exist_loop.simps add: Exist_loop.simps[of v1 v2 i])
    next
      case f: False
      have "Exist_loop v1 v2 (i + 1) = Inr (\<exists>x \<in> set (drop (nat (i + 1)) v1). v2 x)"
        using 1(1)[OF True vi f] \<open>0 \<le> i\<close> by simp
      with True vi f d show ?thesis
        by (simp del: Exist_loop.simps add: Exist_loop.simps[of v1 v2 i])
    qed
  qed
qed

lemma Find_loop_eq:
  "0 \<le> i \<Longrightarrow>
   Find_loop v F i =
     Inr (case List.find F (drop (nat i) v) of
            None \<Rightarrow> (False, None)
          | Some x \<Rightarrow> (True, Interface x))"
proof (induction v F i rule: Find_loop.induct)
  case (1 v1 v2 i)
  show ?case
  proof (cases "i < Len v1")
    case False
    then show ?thesis by (simp add: drop_done)
  next
    case True
    note d = drop_step [OF \<open>0 \<le> i\<close> True]
    have vi: "Value_Index v1 i = Inr (v1 ! nat i)"
      using True \<open>0 \<le> i\<close> by (simp add: Value_Index_def)
    show ?thesis
    proof (cases "v2 (v1 ! nat i)")
      case t: True
      with True vi d show ?thesis
        by (simp del: Find_loop.simps add: Find_loop.simps[of v1 v2 i])
    next
      case f: False
      have "Find_loop v1 v2 (i + 1) =
              Inr (case List.find v2 (drop (nat (i + 1)) v1) of
                     None \<Rightarrow> (False, None)
                   | Some x \<Rightarrow> (True, Interface x))"
        using 1(1)[OF True vi f] \<open>0 \<le> i\<close> by simp
      with True vi f d show ?thesis
        by (simp del: Find_loop.simps add: Find_loop.simps[of v1 v2 i])
    qed
  qed
qed

lemma ToList_loop_eq:
  "0 \<le> i \<Longrightarrow> ToList_loop v l i = Inr (l @ map Interface (drop (nat i) v))"
proof (induction v l i rule: ToList_loop.induct)
  case (1 v l i)
  show ?case
  proof (cases "i < Len v")
    case False
    then show ?thesis by (simp add: drop_done)
  next
    case True
    note d = drop_step [OF \<open>0 \<le> i\<close> True]
    have vi: "Value_Index v i = Inr (v ! nat i)"
      using True \<open>0 \<le> i\<close> by (simp add: Value_Index_def)
    have "ToList_loop v (PushBack l (Interface (v ! nat i))) (i + 1) =
            Inr (PushBack l (Interface (v ! nat i)) @ map Interface (drop (nat (i + 1)) v))"
      using 1(1)[OF True vi] \<open>0 \<le> i\<close> by simp
    with True vi d show ?thesis
      by (simp del: ToList_loop.simps add: ToList_loop.simps[of v l i] PushBack_def)
  qed
qed

lemma ToSlice_loop_eq:
  "length rest = length es \<Longrightarrow>
   ToSlice_loop es (Some (pre @ rest)) (Len pre) = Inr (Some (pre @ es))"
proof (induction es arbitrary: pre rest)
  case Nil
  then show ?case by simp
next
  case (Cons e es)
  then obtain r rest' where rest: "rest = r # rest'" and len: "length rest' = length es"
    by (cases rest) auto
  have "ToSlice_loop es (Some ((pre @ [e]) @ rest')) (Len (pre @ [e])) =
          Inr (Some ((pre @ [e]) @ es))"
    using Cons.IH [OF len] .
  moreover have "Len (pre @ [e]) = Len pre + 1"
    by (simp add: Len_def)
  ultimately show ?case
    by (simp add: rest Len_def add.commute)
qed

lemma ToSlice_Some: "ToSlice (Some es) = Inr (Some es)"
  using ToSlice_loop_eq [of "replicate (length es) None" es "[]"]
  by (simp add: ToSlice_def make_slice_def Len_def)

subsection \<open>The reverse scans stop at index 1\<close>

text \<open>
  Claim C1. The loop of \<open>IndexLast\<close> and of \<open>FindLast\<close> runs from the last index down to
  index 1 and never tests the element at index 0: the result does not depend on that
  element, \<open>IndexLast\<close> never returns 0, and when the first element satisfies \<open>F\<close> and no
  other element does, \<open>IndexLast\<close> returns \<open>-1\<close> and \<open>FindLast\<close> returns
  \<open>(false, nil)\<close>.
\<close>

theorem IndexLast_FindLast_skip_index_0:
  "IndexLast (SliceV (x # xs)) (FuncV F) = IndexLast (SliceV (y # xs)) (FuncV F)
   \<and> FindLast (SliceV (x # xs)) (FuncV F) = FindLast (SliceV (y # xs)) (FuncV F)
   \<and> IndexLast (SliceV S) (FuncV F) \<noteq> Inr 0
   \<and> (F x \<and> (\<forall>e \<in> set xs. \<not> F e) \<longrightarrow>
        IndexLast (SliceV (x # xs)) (FuncV F) = Inr (- 1)
        \<and> FindLast (SliceV (x # xs)) (FuncV F) = Inr (False, None))"
proof -
  have same: "\<forall>j. 0 < j \<and> j \<le> Len (x # xs) - 1 \<longrightarrow> (x # xs) ! nat j = (y # xs) ! nat j"
    by (simp add: nth_Cons split: nat.splits)
  have len: "Len (x # xs) = Len (y # xs)"
    by (simp add: Len_def)
  have a: "IndexLast (SliceV (x # xs)) (FuncV F) = IndexLast (SliceV (y # xs)) (FuncV F)"
    using IndexLast_loop_same [of "x # xs" "y # xs" "Len (x # xs) - 1" F] same len
    by (simp add: IndexLast_def reflectSlice_SliceV reflectFunc_FuncV)
  have b: "FindLast (SliceV (x # xs)) (FuncV F) = FindLast (SliceV (y # xs)) (FuncV F)"
    using FindLast_loop_same [of "x # xs" "y # xs" "Len (x # xs) - 1" F] same len
    by (simp add: FindLast_def reflectSlice_SliceV reflectFunc_FuncV)
  have c: "IndexLast (SliceV S) (FuncV F) \<noteq> Inr 0"
    using IndexLast_loop_range [of S F "Len S - 1" 0]
    by (auto simp: IndexLast_def reflectSlice_SliceV reflectFunc_FuncV)
  have d: "IndexLast (SliceV (x # xs)) (FuncV F) = Inr (- 1)
           \<and> FindLast (SliceV (x # xs)) (FuncV F) = Inr (False, None)"
    if "\<forall>e \<in> set xs. \<not> F e"
  proof -
    have no: "\<forall>j. 0 < j \<and> j \<le> Len (x # xs) - 1 \<longrightarrow> \<not> F ((x # xs) ! nat j)"
      using that tail_nth [of _ x xs] by blast
    have "IndexLast_loop (x # xs) F (Len (x # xs) - 1) = Inr (- 1)"
      by (rule IndexLast_loop_none) (use no in simp_all)
    moreover have "FindLast_loop (x # xs) F (Len (x # xs) - 1) = Inr (False, None)"
      by (rule FindLast_loop_none) (use no in simp_all)
    ultimately show ?thesis
      by (simp add: IndexLast_def FindLast_def reflectSlice_SliceV reflectFunc_FuncV)
  qed
  from a b c d show ?thesis by blast
qed

theorem IndexLast_FindLast_skip_index_0_witness:
  "even (2 :: int) \<and> \<not> even (1 :: int) \<and> \<not> even (3 :: int)
   \<and> IndexLast (SliceV [2, 1, 3 :: int]) (FuncV even) = Inr (- 1)
   \<and> FindLast (SliceV [2, 1, 3 :: int]) (FuncV even) = Inr (False, None)"
  using IndexLast_FindLast_skip_index_0 [where x = "2 :: int" and xs = "[1, 3]" and F = even]
  by simp

subsection \<open>Filter\<close>

text \<open>
  Claim C2. \<open>Filter\<close> returns a non-nil slice holding, in their original order, exactly
  the elements of \<open>S\<close> that satisfy \<open>F\<close>: every element of the result satisfies \<open>F\<close>,
  the result is a subsequence of \<open>S\<close>, it is the empty non-nil slice when no element
  matches, and the lengths of \<open>Filter(S, F)\<close> and \<open>Filter(S, not F)\<close> add up to the
  length of \<open>S\<close>.
\<close>

theorem Filter_spec:
  "Filter (SliceV S) (FuncV F) = Inr (Some (map Interface (filter F S)))
   \<and> (\<exists>R R'. Filter (SliceV S) (FuncV F) = Inr (Some R)
          \<and> Filter (SliceV S) (FuncV (\<lambda>x. \<not> F x)) = Inr (Some R')
          \<and> (\<forall>e \<in> set R. \<exists>x \<in> set S. e = Interface x \<and> F x)
          \<and> subseq R (map Interface S)
          \<and> ((\<forall>x \<in> set S. \<not> F x) \<longrightarrow> R = [])
          \<and> int (length R) + int (length R') = Len S)"
proof -
  have "int (length (filter F S)) + int (length (filter (\<lambda>x. \<not> F x) S)) = int (length S)"
    using sum_length_filter_compl [of F S] by linarith
  moreover have "subseq (map Interface (filter F S)) (map Interface S)"
    by (intro subseq_map subseq_filter_left)
  ultimately show ?thesis
    by (auto simp: Filter_eq Len_def)
qed

theorem Filter_spec_witness:
  "Filter (SliceV [1, 2, 3, 4 :: int]) (FuncV (\<lambda>i. i mod 2 = 0)) = Inr (Some [Some 2, Some 4])
   \<and> \<not> (1 :: int) mod 2 = 0 \<and> \<not> (3 :: int) mod 2 = 0
   \<and> Filter (SliceV [1, 3 :: int]) (FuncV (\<lambda>i. i mod 2 = 0)) = Inr (Some [])"
  using Filter_spec [where S = "[1, 2, 3, 4 :: int]" and F = "\<lambda>i. i mod 2 = 0"]
    Filter_spec [where S = "[1, 3 :: int]" and F = "\<lambda>i. i mod 2 = 0"]
  by (simp add: Interface_def)

subsection \<open>ToList and ToSlice\<close>

text \<open>
  Claim C3. \<open>ToList\<close> of a slice \<open>S\<close> returns a list \<open>l\<close>, and \<open>ToSlice\<close> of that list
  is a slice with the elements of \<open>S\<close> in the same order; \<open>ToSlice\<close> of the nil list and
  of the empty list is the empty non-nil slice.
\<close>

theorem ToSlice_ToList_spec:
  "(\<exists>l. ToList (SliceV S) = Inr (Some l) \<and> ToSlice (Some l) = Inr (Some (map Interface S)))
   \<and> ToSlice None = Inr (Some [])
   \<and> ToSlice (Some []) = Inr (Some [])"
proof -
  have "ToList (SliceV S) = Inr (Some (map Interface S))"
    using ToList_loop_eq [of 0 S list_New]
    by (simp add: ToList_def reflectSlice_SliceV list_New_def)
  moreover have "ToSlice None = Inr (Some [])"
    by (simp add: ToSlice_def make_slice_def)
  ultimately show ?thesis
    by (simp add: ToSlice_Some)
qed

theorem ToSlice_ToList_spec_witness:
  "ToList (SliceV [1, 2, 3, 4 :: int]) = Inr (Some [Some 1, Some 2, Some 3, Some 4])
   \<and> ToSlice (Some [Some 1, Some 2, Some 3, Some 4 :: int iface]) =
       Inr (Some [Some 1, Some 2, Some 3, Some 4])"
  using ToSlice_ToList_spec [where S = "[1, 2, 3, 4 :: int]"]
  by (auto simp: Interface_def ToSlice_Some)

subsection \<open>Exist and Find\<close>

text \<open>
  Claim C4. \<open>Exist(S, F)\<close> returns true if and only if \<open>Find(S, F)\<close> returns
  \<open>(true, _)\<close>; both return, with the same boolean. When \<open>k\<close> is the first index whose
  element satisfies \<open>F\<close>, \<open>Find\<close> returns \<open>(true, S[k])\<close>; when no element satisfies
  \<open>F\<close>, \<open>Find\<close> returns \<open>(false, nil)\<close>.
\<close>

theorem Exist_Find_spec:
  "(Exist (SliceV S) (FuncV F) = Inr True \<longleftrightarrow> (\<exists>x. Find (SliceV S) (FuncV F) = Inr (True, x)))
   \<and> (\<exists>b x. Exist (SliceV S) (FuncV F) = Inr b \<and> Find (SliceV S) (FuncV F) = Inr (b, x))
   \<and> (k < length S \<and> F (S ! k) \<and> (\<forall>j < k. \<not> F (S ! j)) \<longrightarrow>
        Exist (SliceV S) (FuncV F) = Inr True
        \<and> Find (SliceV S) (FuncV F) = Inr (True, Interface (S ! k)))
   \<and> ((\<forall>x \<in> set S. \<not> F x) \<longrightarrow>
        Exist (SliceV S) (FuncV F) = Inr False
        \<and> Find (SliceV S) (FuncV F) = Inr (False, None))"
proof -
  have e: "Exist (SliceV S) (FuncV F) = Inr (\<exists>x \<in> set S. F x)"
    using Exist_loop_eq [of 0 S F]
    by (simp add: Exist_def reflectSlice_SliceV reflectFunc_FuncV)
  have f: "Find (SliceV S) (FuncV F) =
             Inr (case List.find F S of None \<Rightarrow> (False, None) | Some x \<Rightarrow> (True, Interface x))"
    using Find_loop_eq [of 0 S F]
    by (simp add: Find_def reflectSlice_SliceV reflectFunc_FuncV)
  have first: "List.find F S = Some (S ! k)"
    if "k < length S" "F (S ! k)" "\<forall>j < k. \<not> F (S ! j)"
    using that by (auto simp: find_Some_iff)
  have none: "List.find F S = None" if "\<forall>x \<in> set S. \<not> F x"
    using that by (simp add: find_None_iff)
  have iff: "(\<exists>x \<in> set S. F x) \<longleftrightarrow> List.find F S \<noteq> None"
    by (auto simp: find_None_iff)
  show ?thesis
    using first none iff
    by (auto simp: e f split: option.splits)
qed

theorem Exist_Find_spec_witness:
  "(2 :: nat) < length [1, 2, 3, 4, 6 :: int]
   \<and> ([1, 2, 3, 4, 6 :: int] ! 2) mod 3 = 0
   \<and> \<not> ([1, 2, 3, 4, 6 :: int] ! 0) mod 3 = 0
   \<and> \<not> ([1, 2, 3, 4, 6 :: int] ! 1) mod 3 = 0
   \<and> Exist (SliceV [1, 2, 3, 4, 6 :: int]) (FuncV (\<lambda>i. i mod 3 = 0)) = Inr True
   \<and> Find (SliceV [1, 2, 3, 4, 6 :: int]) (FuncV (\<lambda>i. i mod 3 = 0)) = Inr (True, Some 3)
   \<and> list_all (\<lambda>x. \<not> x mod 5 = 0) [1, 2, 3, 4 :: int]
   \<and> Exist (SliceV [1, 2, 3, 4 :: int]) (FuncV (\<lambda>i. i mod 5 = 0)) = Inr False
   \<and> Find (SliceV [1, 2, 3, 4 :: int]) (FuncV (\<lambda>i. i mod 5 = 0)) = Inr (False, None)"
proof -
  have first: "\<forall>j < 2. \<not> ([1, 2, 3, 4, 6 :: int] ! j) mod 3 = 0"
    by (simp add: less_2_cases_iff)
  have none: "\<forall>x \<in> set [1, 2, 3, 4 :: int]. \<not> x mod 5 = 0"
    by simp
  show ?thesis
    using first none
      Exist_Find_spec [where S = "[1, 2, 3, 4, 6 :: int]" and F = "\<lambda>i. i mod 3 = 0" and k = 2]
      Exist_Find_spec [where S = "[1, 2, 3, 4 :: int]" and F = "\<lambda>i. i mod 5 = 0" and k = 0]
    by (simp add: Interface_def)
qed

subsection \<open>The cases of the package's tests\<close>

text \<open>
  The model on the inputs of \<^verbatim>\<open>TestToList\<close>, \<^verbatim>\<open>TestToSlice\<close>, \<^verbatim>\<open>TestExist\<close>,
  \<^verbatim>\<open>TestFilter\<close>, \<^verbatim>\<open>TestFind\<close> and \<^verbatim>\<open>TestFindLast\<close> gives what the tests expect.
\<close>

lemma TestToList_model:
  "ToList (SliceV [1, 2, 3, 4 :: int] :: (int, unit) value) =
     Inr (Some [Some 1, Some 2, Some 3, Some 4])"
  by code_simp

lemma TestToSlice_model:
  "ToSlice (Some [Some 1, Some 2, Some 3, Some (4 :: int)]) =
     Inr (Some [Some 1, Some 2, Some 3, Some 4])"
  by code_simp

lemma TestExist_model:
  "Exist (SliceV [1, 2, 3, 4 :: int]) (FuncV (\<lambda>i. i mod 3 = 0)) = Inr True"
  "Exist (SliceV [1, 2, 3, 4 :: int]) (FuncV (\<lambda>i. i mod 5 = 0)) = Inr False"
  by code_simp+

lemma TestFilter_model:
  "Filter (SliceV [1, 2, 3, 4 :: int]) (FuncV (\<lambda>i. i mod 2 = 0)) = Inr (Some [Some 2, Some 4])"
  by code_simp

lemma TestFind_model:
  "Find (SliceV [1, 2, 3, 4, 6 :: int]) (FuncV (\<lambda>i. i mod 3 = 0)) = Inr (True, Some 3)"
  "Find (SliceV [1, 2, 3, 4 :: int]) (FuncV (\<lambda>i. i mod 5 = 0)) = Inr (False, None)"
  by code_simp+

lemma TestFindLast_model:
  "FindLast (SliceV [1, 2, 3, 4, 6 :: int]) (FuncV (\<lambda>i. i mod 3 = 0)) = Inr (True, Some 6)"
  "FindLast (SliceV [1, 2, 3, 4 :: int]) (FuncV (\<lambda>i. i mod 5 = 0)) = Inr (False, None)"
  by code_simp+

text \<open>Arguments of the wrong shape panic, and a pointer is followed once.\<close>

lemma reflect_shapes:
  "IndexLast (PtrV (SliceV [3, 1, 3 :: int])) (FuncV (\<lambda>i. i mod 3 = 0)) = Inr 2"
  "IndexLast (PtrV (PtrV (SliceV [3, 1, 3 :: int]))) (FuncV (\<lambda>i. i mod 3 = 0)) =
     Inl (NotSlice Ptr)"
  "IndexLast (SliceV [3, 1, 3 :: int]) NilPtrV = Inl (NotFunc Invalid)"
  by code_simp+

section \<open>Properties of package collection\<close>

subsection \<open>Auxiliary facts\<close>

lemma Contains_Key: "Contains s (Key x) = Inr (x \<in> fmdom' (equal_keys (elements s)))"
  by (simp add: Contains_def fmdom'_alt_def fmlookup_dom_iff split: option.splits)

lemma Contains_NaN: "Contains s (NaN x) = Inr False"
  by (simp add: Contains_def)

lemma Contains_Unhashable: "Contains s (Unhashable x) = Inl UnhashableKey"
  by (simp add: Contains_def)

lemma Add_Key:
  "Add s (Key x) =
     Inr (x \<in> fmdom' (equal_keys (elements s)),
          s\<lparr>elements := (elements s)\<lparr>equal_keys := fmupd x True (equal_keys (elements s))\<rparr>\<rparr>)"
  by (simp add: Add_def fmdom'_alt_def fmlookup_dom_iff split: option.splits)

lemma Add_NaN:
  "Add s (NaN x) =
     Inr (False, s\<lparr>elements := (elements s)\<lparr>nan_keys := nan_keys (elements s) @ [(x, True)]\<rparr>\<rparr>)"
  by (simp add: Add_def)


lemma Size_eq:
  "Size s = int (card (fmdom' (equal_keys (elements s)))) + int (length (nan_keys (elements s)))"
  by (simp add: Size_def map_len_def fmdom'_alt_def fcard.rep_eq)

lemma range_order_NaNs:
  assumes "range_order m ks"
  shows "length (NaNs_of ks) = length (nan_keys m)"
    and "NaNs_of ks = [] \<longleftrightarrow> nan_keys m = []"
proof -
  have m: "mset (NaNs_of ks) = mset (map fst (nan_keys m))"
    using assms by (simp add: range_order_def)
  from mset_eq_length [OF m] show "length (NaNs_of ks) = length (nan_keys m)"
    by simp
  then show "NaNs_of ks = [] \<longleftrightarrow> nan_keys m = []"
    by (metis length_0_conv)
qed

lemma range_order_Keys:
  "range_order m ks \<Longrightarrow> set (Keys_of ks) = fmdom' (equal_keys m)"
  by (simp add: range_order_def)

lemma range_order_hashable: "range_order m ks \<Longrightarrow> list_all hashable ks"
  by (simp add: range_order_def)

lemma self_equal_iff: "list_all hashable ks \<Longrightarrow> list_all (\<lambda>k. go_eq k k) ks \<longleftrightarrow> NaNs_of ks = []"
proof (induction ks)
  case Nil
  then show ?case by simp
next
  case (Cons k ks)
  then show ?case by (cases k) simp_all
qed

lemma IsEqual_loop_eq:
  "list_all hashable ks \<Longrightarrow>
   IsEqual_loop ks t =
     Inr (NaNs_of ks = [] \<and> set (Keys_of ks) \<subseteq> fmdom' (equal_keys (elements t)))"
proof (induction ks)
  case Nil
  then show ?case by simp
next
  case (Cons k ks)
  then show ?case
    by (cases k) (auto simp: Contains_Key Contains_NaN)
qed


lemma IsEqual_eq:
  assumes "range_order (elements s0) ks"
  shows "IsEqual ks s0 (Some t) =
           Inr (nan_keys (elements s0) = [] \<and> nan_keys (elements t) = []
                \<and> fmdom' (equal_keys (elements s0)) = fmdom' (equal_keys (elements t)))"
proof -
  let ?ds = "fmdom' (equal_keys (elements s0))" and ?dt = "fmdom' (equal_keys (elements t))"
  have loop: "IsEqual_loop ks t = Inr (nan_keys (elements s0) = [] \<and> ?ds \<subseteq> ?dt)"
    using IsEqual_loop_eq [OF range_order_hashable [OF assms], of t]
      range_order_NaNs(2) [OF assms] range_order_Keys [OF assms]
    by simp
  have fin: "finite ?dt" "finite ?ds"
    by (simp_all add: fmdom'_alt_def)
  show ?thesis
  proof (cases "Size s0 = Size t")
    case False
    then show ?thesis
      by (auto simp: IsEqual_def Size_eq)
  next
    case True
    have "?ds = ?dt \<and> nan_keys (elements t) = []"
      if "nan_keys (elements s0) = []" "?ds \<subseteq> ?dt"
    proof -
      have le: "card ?ds \<le> card ?dt"
        using that(2) fin(1) by (rule card_mono [rotated])
      have "int (card ?ds) = int (card ?dt) + int (length (nan_keys (elements t)))"
        using True that(1) by (simp add: Size_eq)
      with le have c: "card ?ds = card ?dt" and n: "length (nan_keys (elements t)) = 0"
        by linarith+
      from card_subset_eq [OF fin(1) that(2) c] n show ?thesis
        by simp
    qed
    with True show ?thesis
      by (auto simp: IsEqual_def loop)
  qed
qed




lemma nan_free_keys:
  "list_all hashable ks \<Longrightarrow> NaNs_of ks = [] \<Longrightarrow> set ks = Key ` set (Keys_of ks)"
proof (induction ks)
  case Nil
  then show ?case by simp
next
  case (Cons k ks)
  then show ?case by (cases k) auto
qed

lemma Contains_eq_iff:
  "(\<forall>v. Contains s v = Contains t v) \<longleftrightarrow>
   fmdom' (equal_keys (elements s)) = fmdom' (equal_keys (elements t))"
proof
  assume a: "\<forall>v. Contains s v = Contains t v"
  have "x \<in> fmdom' (equal_keys (elements s)) \<longleftrightarrow> x \<in> fmdom' (equal_keys (elements t))" for x
    using a [rule_format, of "Key x"] by (simp add: Contains_Key)
  then show "fmdom' (equal_keys (elements s)) = fmdom' (equal_keys (elements t))"
    by blast
next
  assume d: "fmdom' (equal_keys (elements s)) = fmdom' (equal_keys (elements t))"
  show "\<forall>v. Contains s v = Contains t v"
  proof
    fix v :: "'a key"
    show "Contains s v = Contains t v"
      by (cases v) (simp_all add: Contains_Key Contains_NaN Contains_Unhashable d)
  qed
qed


subsection \<open>Add\<close>




subsection \<open>IsEqual\<close>

text \<open>
  Claim C6, amended. For every order in which the loops may visit the keys:
  \<open>s.IsEqual(s)\<close> is true exactly when every element of \<open>s\<close> is \<^verbatim>\<open>==\<close> to itself, so
  \<open>IsEqual\<close> is reflexive on the sets without a NaN; it is symmetric on all sets and never
  panics; it returns true only when the two sets have the same size and the same elements
  (and then \<open>range\<close> yields the same keys for both), and it does return true when they
  have and the elements of the receiver are \<^verbatim>\<open>==\<close> to themselves; it returns false when the
  other set is nil or the sizes differ.
\<close>

theorem IsEqual_spec:
  assumes "range_order (elements s) ks" and "range_order (elements t) ks'"
  shows "IsEqual ks s (Some s) = Inr (list_all (\<lambda>k. go_eq k k) ks)
   \<and> IsEqual ks s (Some t) = IsEqual ks' t (Some s)
   \<and> (\<exists>b. IsEqual ks s (Some t) = Inr b)
   \<and> (IsEqual ks s (Some t) = Inr True \<longrightarrow>
        Size s = Size t \<and> (\<forall>v. Contains s v = Contains t v) \<and> set ks = set ks')
   \<and> (list_all (\<lambda>k. go_eq k k) ks \<and> Size s = Size t \<and> (\<forall>v. Contains s v = Contains t v) \<longrightarrow>
        IsEqual ks s (Some t) = Inr True)
   \<and> IsEqual ks s None = Inr False
   \<and> (Size s \<noteq> Size t \<longrightarrow> IsEqual ks s (Some t) = Inr False)"
proof -
  let ?ds = "fmdom' (equal_keys (elements s))" and ?dt = "fmdom' (equal_keys (elements t))"
  let ?ns = "nan_keys (elements s)" and ?nt = "nan_keys (elements t)"
  note hs = range_order_hashable [OF assms(1)] and ht = range_order_hashable [OF assms(2)]
  have refl_s: "list_all (\<lambda>k. go_eq k k) ks \<longleftrightarrow> ?ns = []"
    using self_equal_iff [OF hs] range_order_NaNs(2) [OF assms(1)] by simp
  have st: "IsEqual ks s (Some t) = Inr (?ns = [] \<and> ?nt = [] \<and> ?ds = ?dt)"
    by (rule IsEqual_eq [OF assms(1)])
  have ts: "IsEqual ks' t (Some s) = Inr (?nt = [] \<and> ?ns = [] \<and> ?dt = ?ds)"
    by (rule IsEqual_eq [OF assms(2)])
  have ss: "IsEqual ks s (Some s) = Inr (list_all (\<lambda>k. go_eq k k) ks)"
    using IsEqual_eq [OF assms(1), of s] refl_s by simp
  have sym: "IsEqual ks s (Some t) = IsEqual ks' t (Some s)"
    unfolding st ts by auto
  have keys: "set ks = set ks'" if "?ns = []" "?nt = []" "?ds = ?dt"
  proof -
    have "NaNs_of ks = []" "NaNs_of ks' = []"
      using that range_order_NaNs(2) [OF assms(1)] range_order_NaNs(2) [OF assms(2)]
      by simp_all
    then have "set ks = Key ` ?ds" "set ks' = Key ` ?dt"
      using nan_free_keys [OF hs] nan_free_keys [OF ht]
        range_order_Keys [OF assms(1)] range_order_Keys [OF assms(2)]
      by simp_all
    with that(3) show ?thesis by simp
  qed
  have only: "Size s = Size t \<and> (\<forall>v. Contains s v = Contains t v) \<and> set ks = set ks'"
    if "IsEqual ks s (Some t) = Inr True"
  proof -
    from that have e: "?ns = []" "?nt = []" "?ds = ?dt"
      unfolding st by simp_all
    then have "Size s = Size t"
      by (simp add: Size_eq)
    with e keys show ?thesis
      by (simp add: Contains_eq_iff)
  qed
  have conv: "IsEqual ks s (Some t) = Inr True"
    if "list_all (\<lambda>k. go_eq k k) ks" "Size s = Size t" "\<forall>v. Contains s v = Contains t v"
  proof -
    from that(1) have n: "?ns = []"
      by (simp add: refl_s)
    from that(3) have d: "?ds = ?dt"
      by (simp add: Contains_eq_iff)
    from that(2) n d have "?nt = []"
      by (simp add: Size_eq)
    with n d show ?thesis
      by (simp add: st)
  qed
  have nil: "IsEqual ks s None = Inr False"
    by (simp add: IsEqual_def)
  have size: "IsEqual ks s (Some t) = Inr False" if "Size s \<noteq> Size t"
    using that by (simp add: IsEqual_def)
  have ex: "\<exists>b. IsEqual ks s (Some t) = Inr b"
    by (simp add: st)
  from ss sym ex only conv nil size show ?thesis
    by blast
qed

theorem IsEqual_spec_witness:
  "\<exists>S T. NewSet [Key 1, Key 2, Key (3 :: int)] = Inr S
     \<and> NewSet [Key 2, Key 3, Key (4 :: int)] = Inr T
     \<and> range_order (elements S) [Key 3, Key 1, Key 2]
     \<and> range_order (elements T) [Key 2, Key 4, Key 3]
     \<and> list_all (\<lambda>k. go_eq k k) [Key 3, Key 1, Key (2 :: int)]
     \<and> IsEqual [Key 3, Key 1, Key 2] S (Some S) = Inr True
     \<and> IsEqual [Key 3, Key 1, Key 2] S (Some T) = Inr False
     \<and> IsEqual [Key 2, Key 4, Key 3] T (Some S) = Inr False
     \<and> IsEqual [Key 3, Key 1, Key 2] S None = Inr False"
proof -
  let ?S = "\<lparr>elements = \<lparr>equal_keys = fmupd 3 True (fmupd 2 True (fmupd 1 True fmempty)),
              nan_keys = []\<rparr>\<rparr> :: int baseSet"
  let ?T = "\<lparr>elements = \<lparr>equal_keys = fmupd 4 True (fmupd 3 True (fmupd 2 True fmempty)),
              nan_keys = []\<rparr>\<rparr> :: int baseSet"
  have new: "NewSet [Key 1, Key 2, Key (3 :: int)] = Inr ?S"
    "NewSet [Key 2, Key 3, Key (4 :: int)] = Inr ?T"
    by (simp_all add: NewSet_def make_map_def Add_Key)
  have h1: "range_order (elements ?S) [Key 3, Key 1, Key 2]"
    by (auto simp: range_order_def)
  have h2: "range_order (elements ?T) [Key 2, Key 4, Key 3]"
    by (auto simp: range_order_def)
  have r: "list_all (\<lambda>k. go_eq k k) [Key 3, Key 1, Key (2 :: int)]"
    by simp
  have ne: "IsEqual [Key 3, Key 1, Key 2] ?S (Some ?T) = Inr False"
    by (simp add: IsEqual_def Size_eq Contains_Key)
  from IsEqual_spec [OF h1 h2] r ne
  have "IsEqual [Key 3, Key 1, Key 2] ?S (Some ?S) = Inr True"
    "IsEqual [Key 2, Key 4, Key 3] ?T (Some ?S) = Inr False"
    "IsEqual [Key 3, Key 1, Key 2] ?S None = Inr False"
    by simp_all
  with new h1 h2 r ne show ?thesis
    by blast
qed

theorem IsEqual_NaN_counterexample:
  "NewSet [NaN (0 :: int)] = Inr \<lparr>elements = \<lparr>equal_keys = fmempty, nan_keys = [(0, True)]\<rparr>\<rparr>
   \<and> range_order \<lparr>equal_keys = fmempty, nan_keys = [(0 :: int, True)]\<rparr> [NaN 0]
   \<and> IsEqual [NaN 0]
       \<lparr>elements = \<lparr>equal_keys = fmempty, nan_keys = [(0 :: int, True)]\<rparr>\<rparr>
       (Some \<lparr>elements = \<lparr>equal_keys = fmempty, nan_keys = [(0, True)]\<rparr>\<rparr>) = Inr False"
  by (simp add: NewSet_def make_map_def Add_NaN range_order_def IsEqual_def Contains_NaN)

subsection \<open>Union\<close>




subsection \<open>The cases of the package's tests\<close>

text \<open>
  The model on the input of \<^verbatim>\<open>TestAdd\<close> gives what the test expects; the witnesses
  above are the inputs of \<^verbatim>\<open>TestIsEqual\<close> and \<^verbatim>\<open>TestUnion\<close>.
\<close>

lemma TestAdd_model:
  "Add \<lparr>elements = make_map\<rparr> (Key (1 :: int)) =
     Inr (False, \<lparr>elements = \<lparr>equal_keys = fmupd 1 True fmempty, nan_keys = []\<rparr>\<rparr>)"
  "fst (projr (Add \<lparr>elements = \<lparr>equal_keys = fmupd 1 True fmempty, nan_keys = []\<rparr>\<rparr>
      (Key (1 :: int)))) = True"
  by (simp_all add: Add_Key make_map_def)

section \<open>Properties of package errors\<close>

text \<open>
  Claim C8. An error made by \<open>New\<close>, \<open>Newf\<close>, \<open>Wrap\<close> or \<open>Wrapf\<close> has the code
  \<open>DefaultErrCode = -1\<close>; an error made by \<open>NewByCode\<close>, \<open>NewfByCode\<close>, \<open>WrapByCode\<close>
  or \<open>WrapfByCode\<close> has the code that was passed.
\<close>

theorem constructors_Code:
  "Code (New st msg) = - 1
   \<and> Code (Newf Sprintf st format args) = - 1
   \<and> Code (Wrap st err msg) = - 1
   \<and> Code (Wrapf Sprintf st err format args) = - 1
   \<and> Code (NewByCode st c msg) = c
   \<and> Code (NewfByCode Sprintf st c format args) = c
   \<and> Code (WrapByCode st c err msg) = c
   \<and> Code (WrapfByCode Sprintf st c err format args) = c"
  by (simp add: Code_def New_def Newf_def Wrap_def Wrapf_def NewByCode_def NewfByCode_def
      WrapByCode_def WrapfByCode_def DefaultErrCode_def)

text \<open>
  Claim C10. \<open>SetCode(c)\<close> changes the code only: afterwards \<open>Code()\<close> is \<open>c\<close>, and
  \<open>Message()\<close>, \<open>Stack()\<close>, \<open>Context()\<close> and \<open>Inner()\<close> return what they returned
  before.
\<close>

theorem SetCode_frame:
  "Code (SetCode e c) = c
   \<and> baseError_Message (SetCode e c) = baseError_Message e
   \<and> Stack (SetCode e c) = Stack e
   \<and> Context (SetCode e c) = Context e
   \<and> Inner (SetCode e c) = Inner e"
  by (simp add: SetCode_def Code_def baseError_Message_def Stack_def Context_def Inner_def)

subsection \<open>Message\<close>

lemma Message_loop_Wrap_None:
  "Message_loop (Wrap st None m) ret = ret @ [m]"
  by (subst Message_loop.simps) (simp add: Wrap_def Inner_def baseError_Message_def)

lemma Message_loop_Wrap_Other:
  "Message_loop (Wrap st (Some (OtherError t)) m) ret = ret @ [m, t]"
  by (subst Message_loop.simps) (simp add: Wrap_def Inner_def baseError_Message_def)

lemma Message_loop_Wrap_Error:
  "Message_loop (Wrap st (Some (Error e)) m) ret = Message_loop e (ret @ [m])"
  by (subst Message_loop.simps) (simp add: Wrap_def Inner_def baseError_Message_def)

lemma Message_loop_New: "Message_loop (New st m) ret = ret @ [m]"
  by (subst Message_loop.simps)
    (simp add: New_def Inner_def baseError_Message_def)

lemma baseError_Message_Wrap: "baseError_Message (Wrap st err m) = m"
  by (simp add: Wrap_def baseError_Message_def)

text \<open>
  Claim C9. The method \<open>Message()\<close> of \<open>Wrap(inner, "outer")\<close> returns \<open>"outer"\<close>.
  The function \<open>Message\<close> on an error wrapped three times returns the three messages
  from the outermost to the innermost, joined by single spaces, whether the innermost error
  wraps nothing or was made by \<open>New\<close>; when the innermost cause is not an \<open>Error\<close>, its
  text is appended once, after the messages of the wrapping errors.
\<close>

theorem Message_chain:
  "baseError_Message (Wrap st inner' ''outer'') = ''outer''
   \<and> Message (ErrorVal (Wrap st3 (Some (Error (Wrap st2 (Some (Error (Wrap st1 None m1))) m2))) m3))
       = m3 @ '' '' @ m2 @ '' '' @ m1
   \<and> Message (ErrorVal (Wrap st3 (Some (Error (Wrap st2 (Some (Error (New st1 m1))) m2))) m3))
       = m3 @ '' '' @ m2 @ '' '' @ m1
   \<and> Message (ErrorVal (Wrap st3 (Some (Error (Wrap st2 (Some (OtherError m1)) m2))) m3))
       = m3 @ '' '' @ m2 @ '' '' @ m1
   \<and> Message (ErrorVal (Wrap st3 (Some (Error (Wrap st2 (Some (Error
         (Wrap st1 (Some (OtherError t)) m1))) m2))) m3))
       = m3 @ '' '' @ m2 @ '' '' @ m1 @ '' '' @ t"
  by (simp add: Message_def Message_loop_Wrap_None Message_loop_Wrap_Other
      Message_loop_Wrap_Error Message_loop_New baseError_Message_Wrap)

theorem Message_chain_witness:
  "Message (ErrorVal (Wrap (''s3'', ''c3'')
      (Some (Error (Wrap (''s2'', ''c2'') (Some (OtherError ''I am inner error''))
         ''I am the middle error'')))
      ''I am the mighty outer error''))
   = ''I am the mighty outer error I am the middle error I am inner error''"
  using Message_chain [where ?m1.0 = "''I am inner error''" and ?m2.0 = "''I am the middle error''"
      and ?m3.0 = "''I am the mighty outer error''" and ?st2.0 = "(''s2'', ''c2'')"
      and ?st3.0 = "(''s3'', ''c3'')"]
  by simp

end
